theory Spec2Isabelle
  imports Main
begin

text \<open>
  A model of the tag synchronisation core of the water treatment station client: the tag
  registry (lib/tags), the singleton wrapper around the OPC-UA client (lib/opcClient), the
  server-sent-events route that fans tag changes out to listeners (api/socket) and the
  reconnection logic of the page (app/page).

  The wrapper's methods are asynchronous, but each runs as one handler of the event loop
  between the awaits it makes on the node-opcua primitive. A method is modelled as a
  function from the state before the call to its result and the state after it, with the
  outcome of every awaited operation of the primitive given as a parameter (\<open>env\<close>);
  a promise that is rejected is a value (\<open>Inl\<close>), and a \<^verbatim>\<open>catch\<close> is a case
  distinction on it. Handlers of different requests are not interleaved inside one method.
\<close>

section \<open>Tag registry (lib/tags)\<close>

text \<open>
  \<^verbatim>\<open>TagName\<close> is a TypeScript union of string literals. It is erased at run time, and
  the control route casts an arbitrary request string to it (\<^verbatim>\<open>tag as TagName\<close>), so a
  tag name is modelled as a string and the registry as the association list the object
  literal \<^verbatim>\<open>tags\<close> spells out, looked up with \<open>map_of\<close>; a missing key is
  \<^verbatim>\<open>undefined\<close>, that is \<open>None\<close>.
\<close>

type_synonym TagName = string

datatype TagType = Boolean | Int16 | Float | String

datatype Access = Read | Write

record TagInfo =
  nodeId :: string
  tagType :: TagType
  access :: "Access list"
  description :: string

definition tags :: "(TagName \<times> TagInfo) list" where
  "tags =
    [(''ARU'', \<lparr>nodeId = ''ns=4;s=ARU'', tagType = Boolean, access = [Read, Write],
        description = ''Emergency stop button''\<rparr>),
     (''AUT'', \<lparr>nodeId = ''ns=4;s=AUT'', tagType = Boolean, access = [Read, Write],
        description = ''Automatic mode''\<rparr>),
     (''BPpompe'', \<lparr>nodeId = ''ns=4;s=BPpompe'', tagType = Boolean, access = [Read],
        description = ''Pump button status''\<rparr>),
     (''BPvanne'', \<lparr>nodeId = ''ns=4;s=BPvanne'', tagType = Boolean, access = [Read],
        description = ''Valve button status''\<rparr>),
     (''REA'', \<lparr>nodeId = ''ns=4;s=REA'', tagType = Boolean, access = [Read, Write],
        description = ''Reset button''\<rparr>),
     (''arret'', \<lparr>nodeId = ''ns=4;s=arret'', tagType = Boolean, access = [Read, Write],
        description = ''Stop button''\<rparr>),
     (''marche'', \<lparr>nodeId = ''ns=4;s=marche'', tagType = Boolean, access = [Read, Write],
        description = ''Start button''\<rparr>),
     (''niveau'', \<lparr>nodeId = ''ns=4;s=niveau'', tagType = Int16, access = [Read],
        description = ''Water level''\<rparr>),
     (''pompe'', \<lparr>nodeId = ''ns=4;s=pompe'', tagType = Boolean, access = [Read, Write],
        description = ''Pump control''\<rparr>),
     (''vanne'', \<lparr>nodeId = ''ns=4;s=vanne'', tagType = Boolean, access = [Read, Write],
        description = ''Valve control''\<rparr>)]"

section \<open>Values, the protocol primitive and the process state (lib/opcClient)\<close>

text \<open>
  Tag values are typed \<^verbatim>\<open>any\<close> in the source; the values that occur are
  \<^verbatim>\<open>null\<close>, booleans, numbers and strings. Numbers are modelled as integers (the
  only arithmetic on them is \<^verbatim>\<open>Math.floor\<close> of a random draw).
\<close>

datatype jsval = JNull | JBool bool | JNum int | JStr string

fun truthy :: "jsval option \<Rightarrow> bool" where
  "truthy None = False"
| "truthy (Some JNull) = False"
| "truthy (Some (JBool b)) = b"
| "truthy (Some (JNum n)) = (n \<noteq> 0)"
| "truthy (Some (JStr s)) = (s \<noteq> [])"

datatype DataType =
  DataType_Boolean | DataType_Int16 | DataType_Float | DataType_String | DataType_Variant

datatype js_error = TypeError

datatype 'a promise = Resolved 'a | Rejected

datatype connect_race = ConnectResolved | ConnectRejected | ConnectionTimeout

datatype ClientSession = ClientSession
datatype ClientSubscription = ClientSubscription
datatype ClientMonitoredItem = ClientMonitoredItem

record WriteValue =
  wv_nodeId :: string
  wv_dataType :: DataType
  wv_value :: jsval

record DataValue =
  statusCode_isGood :: bool
  value_value :: jsval

text \<open>
  The node-opcua primitive is an external collaborator. What each of its operations does
  during one call of the wrapper is a parameter of the model: whether the awaited promise
  resolves or rejects (or the call throws), and with what. \<open>NODE_ENV\<close> is
  \<^verbatim>\<open>process.env.NODE_ENV\<close>, which may be undefined.
\<close>

record env =
  NODE_ENV :: "string option"
  client_connect :: "string \<Rightarrow> connect_race"
  client_createSession :: "ClientSession promise"
  ClientSubscription_create :: "ClientSubscription promise"
  ClientMonitoredItem_create :: "string \<Rightarrow> ClientMonitoredItem promise"
  subscription_terminate :: "unit promise"
  session_close :: "unit promise"
  client_disconnect :: "unit promise"
  session_write :: "WriteValue \<Rightarrow> bool promise"
  session_read :: "string \<Rightarrow> DataValue promise"

text \<open>The calls made to the primitive, and the observable history of the wrapper.\<close>

datatype prim =
    ClientConnect string
  | CreateSession
  | CreateSubscription
  | CreateMonitoredItem string
  | SubscriptionTerminate
  | SessionClose
  | ClientDisconnect
  | SessionWrite WriteValue
  | SessionRead string

datatype event =
    Call prim
  | GoodRead TagName
  | GoodWrite TagName
  | Notification TagName
  | MockData

text \<open>What the SSE route enqueues on a client's stream controller.\<close>

datatype sse =
    Ping
  | InitialMsg "TagName \<rightharpoonup> jsval"
  | TagMsg TagName jsval

text \<open>
  The state of the server process. The first seven fields are the private fields of the
  singleton \<^verbatim>\<open>OPCUAClientWrapper\<close>; a callback registered by the SSE route is
  identified by the connection it was created for. \<open>intervals\<close> counts the pairs of
  timers installed by \<^verbatim>\<open>mockTagValues\<close> (they are never cleared).
  \<open>activeConnections\<close>, \<open>streams\<close> and \<open>closedStreams\<close> are the module state of the
  SSE route: the registered connections, the chunks enqueued on each connection's stream
  and the streams that were cancelled; \<open>nextId\<close> stands for the fresh identity each
  request gets from \<^verbatim>\<open>crypto.randomUUID()\<close>. \<open>console\<close> collects the message
  text of every \<^verbatim>\<open>console.error\<close> (the error object is dropped;
  \<^verbatim>\<open>console.log\<close> is not modelled), and \<open>trace\<close> records, in order, the calls
  made to the primitive and the points at which the wrapper saw a good read, a good
  write, a change notification or ran the mock initialisation.
\<close>

record opc_state =
  session :: "ClientSession option"
  subscription :: "ClientSubscription option"
  monitoredItems :: "TagName \<rightharpoonup> ClientMonitoredItem"
  connected :: bool
  tagValues :: "TagName \<rightharpoonup> jsval"
  onUpdateCallbacks :: "nat list"
  currentUrl :: string
  intervals :: nat
  activeConnections :: "nat list"
  streams :: "nat \<Rightarrow> sse list"
  closedStreams :: "nat set"
  nextId :: nat
  console :: "string list"
  trace :: "event list"

definition console_error :: "string \<Rightarrow> opc_state \<Rightarrow> opc_state" where
  "console_error msg s = s\<lparr>console := console s @ [msg]\<rparr>"

definition record_event :: "event \<Rightarrow> opc_state \<Rightarrow> opc_state" where
  "record_event e s = s\<lparr>trace := trace s @ [e]\<rparr>"

text \<open>The constructor: every registered tag starts at \<^verbatim>\<open>null\<close>.\<close>

definition constructor :: opc_state where
  "constructor =
    \<lparr>session = None, subscription = None, monitoredItems = Map.empty, connected = False,
     tagValues = fold (\<lambda>tagName m. m(tagName \<mapsto> JNull)) (map fst tags) Map.empty,
     onUpdateCallbacks = [], currentUrl = [], intervals = 0, activeConnections = [],
     streams = (\<lambda>_. []), closedStreams = {}, nextId = 0, console = [], trace = []\<rparr>"

subsection \<open>disconnect\<close>

text \<open>
  The three teardown steps sit in one \<^verbatim>\<open>try\<close> block. A step that rejects leaves
  the block (\<open>Inl\<close>, with the state reached so far); the single \<^verbatim>\<open>catch\<close> logs.
\<close>

definition terminate_step :: "env \<Rightarrow> opc_state \<Rightarrow> opc_state + opc_state" where
  "terminate_step e s =
    (case subscription s of
       None \<Rightarrow> Inr s
     | Some sub \<Rightarrow>
         (case subscription_terminate e of
            Rejected \<Rightarrow> Inl (record_event (Call SubscriptionTerminate) s)
          | Resolved u \<Rightarrow> Inr ((record_event (Call SubscriptionTerminate) s)\<lparr>subscription := None\<rparr>)))"

definition close_step :: "env \<Rightarrow> opc_state \<Rightarrow> opc_state + opc_state" where
  "close_step e s =
    (case session s of
       None \<Rightarrow> Inr s
     | Some sess \<Rightarrow>
         (case session_close e of
            Rejected \<Rightarrow> Inl (record_event (Call SessionClose) s)
          | Resolved u \<Rightarrow> Inr ((record_event (Call SessionClose) s)\<lparr>session := None\<rparr>)))"

definition client_disconnect_step :: "env \<Rightarrow> opc_state \<Rightarrow> opc_state + opc_state" where
  "client_disconnect_step e s =
    (case client_disconnect e of
       Rejected \<Rightarrow> Inl (record_event (Call ClientDisconnect) s)
     | Resolved u \<Rightarrow> Inr ((record_event (Call ClientDisconnect) s)\<lparr>connected := False\<rparr>))"

definition disconnect_try :: "env \<Rightarrow> opc_state \<Rightarrow> opc_state + opc_state" where
  "disconnect_try e s =
    (case terminate_step e s of
       Inl s1 \<Rightarrow> Inl s1
     | Inr s1 \<Rightarrow>
         (case close_step e s1 of
            Inl s2 \<Rightarrow> Inl s2
          | Inr s2 \<Rightarrow> client_disconnect_step e s2))"

definition disconnect :: "env \<Rightarrow> opc_state \<Rightarrow> opc_state" where
  "disconnect e s =
    (if \<not> connected s then s
     else (case disconnect_try e s of
             Inr s1 \<Rightarrow> s1
           | Inl s1 \<Rightarrow> console_error ''Error during disconnection:'' s1))"

subsection \<open>createSubscription and monitorTag\<close>

definition monitorTag :: "env \<Rightarrow> TagName \<Rightarrow> opc_state \<Rightarrow> opc_state" where
  "monitorTag e tagName s =
    (if subscription s = None \<or> session s = None then s
     else (case map_of tags tagName of
             None \<Rightarrow> console_error (''Error monitoring tag '' @ tagName @ '':'') s
           | Some tag \<Rightarrow>
               (case ClientMonitoredItem_create e (nodeId tag) of
                  Rejected \<Rightarrow>
                    console_error (''Error monitoring tag '' @ tagName @ '':'')
                      (record_event (Call (CreateMonitoredItem (nodeId tag))) s)
                | Resolved monitoredItem \<Rightarrow>
                    (record_event (Call (CreateMonitoredItem (nodeId tag))) s)
                      \<lparr>monitoredItems := (monitoredItems s)(tagName \<mapsto> monitoredItem)\<rparr>)))"

definition monitorReadable :: "env \<Rightarrow> TagName \<times> TagInfo \<Rightarrow> opc_state \<Rightarrow> opc_state" where
  "monitorReadable e entry s =
    (if Read \<in> set (access (snd entry)) then monitorTag e (fst entry) s else s)"

definition createSubscription :: "env \<Rightarrow> opc_state \<Rightarrow> opc_state" where
  "createSubscription e s =
    (if session s = None \<or> \<not> connected s then s
     else (case ClientSubscription_create e of
             Rejected \<Rightarrow>
               console_error ''Error creating subscription:''
                 (record_event (Call CreateSubscription) s)
           | Resolved sub \<Rightarrow>
               fold (monitorReadable e) tags
                 ((record_event (Call CreateSubscription) s)\<lparr>subscription := Some sub\<rparr>)))"

subsection \<open>mockTagValues and connect\<close>

definition mockTagValues :: "opc_state \<Rightarrow> opc_state" where
  "mockTagValues s =
    (record_event MockData s)
      \<lparr>tagValues :=
         map_of [(''ARU'', JBool False), (''AUT'', JBool False), (''BPpompe'', JBool True),
                 (''BPvanne'', JBool True), (''REA'', JBool False), (''arret'', JBool False),
                 (''marche'', JBool True), (''niveau'', JNum 65), (''pompe'', JBool True),
                 (''vanne'', JBool True)],
       intervals := Suc (intervals s)\<rparr>"

definition connect_try :: "env \<Rightarrow> string \<Rightarrow> opc_state \<Rightarrow> opc_state + opc_state" where
  "connect_try e endpointUrl s =
    (case client_connect e endpointUrl of
       ConnectResolved \<Rightarrow>
         (case client_createSession e of
            Rejected \<Rightarrow>
              Inl (record_event (Call CreateSession)
                     (record_event (Call (ClientConnect endpointUrl)) s))
          | Resolved sess \<Rightarrow>
              Inr (createSubscription e
                     ((record_event (Call CreateSession)
                         (record_event (Call (ClientConnect endpointUrl)) s))
                        \<lparr>session := Some sess, connected := True, currentUrl := endpointUrl\<rparr>)))
     | ConnectRejected \<Rightarrow> Inl (record_event (Call (ClientConnect endpointUrl)) s)
     | ConnectionTimeout \<Rightarrow> Inl (record_event (Call (ClientConnect endpointUrl)) s))"

definition connect_catch :: "env \<Rightarrow> string \<Rightarrow> opc_state \<Rightarrow> bool \<times> opc_state" where
  "connect_catch e endpointUrl s =
    (if NODE_ENV e = Some ''development''
     then (True,
           mockTagValues
             ((console_error (''Failed to connect to OPC-UA server at '' @ endpointUrl @ '':'') s)
                \<lparr>connected := True, currentUrl := endpointUrl\<rparr>))
     else (False,
           console_error (''Failed to connect to OPC-UA server at '' @ endpointUrl @ '':'') s))"

definition connect :: "env \<Rightarrow> string \<Rightarrow> opc_state \<Rightarrow> bool \<times> opc_state" where
  "connect e endpointUrl s =
    (if connected s \<and> currentUrl s = endpointUrl then (True, s)
     else (case connect_try e endpointUrl
                  (if connected s \<and> currentUrl s \<noteq> endpointUrl then disconnect e s else s) of
             Inr s1 \<Rightarrow> (True, s1)
           | Inl s1 \<Rightarrow> connect_catch e endpointUrl s1))"

definition isConnected :: "opc_state \<Rightarrow> bool" where
  "isConnected s = connected s"

definition getConnectionUrl :: "opc_state \<Rightarrow> string" where
  "getConnectionUrl s = currentUrl s"

definition getAllTagValues :: "opc_state \<Rightarrow> (TagName \<rightharpoonup> jsval)" where
  "getAllTagValues s = tagValues s"

subsection \<open>writeTag and readTag\<close>

text \<open>
  Both return a promise. The lookup \<^verbatim>\<open>tags[tagName]\<close> and the test
  \<^verbatim>\<open>tag.access.includes(...)\<close> stand before the \<^verbatim>\<open>try\<close> block, so for a name
  that is not a key of \<^verbatim>\<open>tags\<close> the property access on \<^verbatim>\<open>undefined\<close> rejects
  the promise with a \<^verbatim>\<open>TypeError\<close> (\<open>Inl\<close>).
\<close>

definition dataTypeFor :: "TagType \<Rightarrow> DataType" where
  "dataTypeFor t =
    (case t of
       Boolean \<Rightarrow> DataType_Boolean
     | Int16 \<Rightarrow> DataType_Int16
     | _ \<Rightarrow> DataType_Variant)"

definition nodeToWrite :: "TagInfo \<Rightarrow> jsval \<Rightarrow> WriteValue" where
  "nodeToWrite tag v =
    \<lparr>wv_nodeId = nodeId tag, wv_dataType = dataTypeFor (tagType tag), wv_value = v\<rparr>"

definition writeTag ::
  "env \<Rightarrow> TagName \<Rightarrow> jsval \<Rightarrow> opc_state \<Rightarrow> (js_error + bool) \<times> opc_state" where
  "writeTag e tagName v s =
    (if session s = None \<or> \<not> connected s
     then (Inr False, console_error ''Not connected to OPC-UA server'' s)
     else (case map_of tags tagName of
             None \<Rightarrow> (Inl TypeError, s)
           | Some tag \<Rightarrow>
               if Write \<notin> set (access tag)
               then (Inr False, console_error (''Tag '' @ tagName @ '' is not writable'') s)
               else (case session_write e (nodeToWrite tag v) of
                       Rejected \<Rightarrow>
                         (Inr False,
                          console_error (''Error writing to tag '' @ tagName @ '':'')
                            (record_event (Call (SessionWrite (nodeToWrite tag v))) s))
                     | Resolved good \<Rightarrow>
                         if good
                         then (Inr True,
                               (record_event (GoodWrite tagName)
                                  (record_event (Call (SessionWrite (nodeToWrite tag v))) s))
                                 \<lparr>tagValues := (tagValues s)(tagName \<mapsto> v)\<rparr>)
                         else (Inr False,
                               record_event (Call (SessionWrite (nodeToWrite tag v))) s))))"

definition readTag ::
  "env \<Rightarrow> TagName \<Rightarrow> opc_state \<Rightarrow> (js_error + jsval) \<times> opc_state" where
  "readTag e tagName s =
    (if session s = None \<or> \<not> connected s
     then (Inr JNull, console_error ''Not connected to OPC-UA server'' s)
     else (case map_of tags tagName of
             None \<Rightarrow> (Inl TypeError, s)
           | Some tag \<Rightarrow>
               if Read \<notin> set (access tag)
               then (Inr JNull, console_error (''Tag '' @ tagName @ '' is not readable'') s)
               else (case session_read e (nodeId tag) of
                       Rejected \<Rightarrow>
                         (Inr JNull,
                          console_error (''Error reading tag '' @ tagName @ '':'')
                            (record_event (Call (SessionRead (nodeId tag))) s))
                     | Resolved dataValue \<Rightarrow>
                         if statusCode_isGood dataValue
                         then (Inr (value_value dataValue),
                               (record_event (GoodRead tagName)
                                  (record_event (Call (SessionRead (nodeId tag))) s))
                                 \<lparr>tagValues := (tagValues s)(tagName \<mapsto> value_value dataValue)\<rparr>)
                         else (Inr JNull,
                               record_event (Call (SessionRead (nodeId tag))) s))))"

subsection \<open>readAllTags\<close>

text \<open>
  \<^verbatim>\<open>readAllTags\<close> starts one \<^verbatim>\<open>readTag\<close> per readable key of \<^verbatim>\<open>tags\<close>, in
  key order, waits for all of them (\<^verbatim>\<open>Promise.all\<close> rejects if one of them does) and
  then stores every result, \<^verbatim>\<open>null\<close> included. The reads are modelled one after
  the other.
\<close>

fun readPromises ::
  "env \<Rightarrow> TagName list \<Rightarrow> opc_state \<Rightarrow> (TagName \<times> (js_error + jsval)) list \<times> opc_state" where
  "readPromises e [] s = ([], s)"
| "readPromises e (tagName # rest) s =
    (case readTag e tagName s of
       (r, s1) \<Rightarrow> (case readPromises e rest s1 of (rs, s2) \<Rightarrow> ((tagName, r) # rs, s2)))"

fun Promise_all :: "(TagName \<times> (js_error + jsval)) list \<Rightarrow> js_error + (TagName \<times> jsval) list" where
  "Promise_all [] = Inr []"
| "Promise_all ((tagName, Inl err) # rest) = Inl err"
| "Promise_all ((tagName, Inr v) # rest) =
    (case Promise_all rest of Inl err \<Rightarrow> Inl err | Inr vs \<Rightarrow> Inr ((tagName, v) # vs))"

definition readableKeys :: "TagName list" where
  "readableKeys =
    filter (\<lambda>tagName. case map_of tags tagName of
                         None \<Rightarrow> False
                       | Some tag \<Rightarrow> Read \<in> set (access tag))
      (map fst tags)"

definition storeResult :: "TagName \<times> jsval \<Rightarrow> opc_state \<Rightarrow> opc_state" where
  "storeResult r s = s\<lparr>tagValues := (tagValues s)(fst r \<mapsto> snd r)\<rparr>"

definition readAllTags ::
  "env \<Rightarrow> opc_state \<Rightarrow> (js_error + (TagName \<rightharpoonup> jsval)) \<times> opc_state" where
  "readAllTags e s =
    (if session s = None \<or> \<not> connected s
     then (Inr (tagValues s), console_error ''Not connected to OPC-UA server'' s)
     else (case readPromises e readableKeys s of
             (results, s1) \<Rightarrow>
               (case Promise_all results of
                  Inl err \<Rightarrow> (Inl err, s1)
                | Inr vs \<Rightarrow> (Inr (tagValues (fold storeResult vs s1)), fold storeResult vs s1))))"

subsection \<open>Change notifications, the mock timers and the update callbacks\<close>

text \<open>
  The only callbacks ever registered are those of the SSE route (lines 68-75 of the
  route): each enqueues a \<^verbatim>\<open>{tag, value}\<close> chunk on its own stream inside a
  \<^verbatim>\<open>try\<close>; enqueueing on a cancelled stream throws and is logged with the
  connection's id. \<open>connectionId\<close> is the text of that id: the number of the
  connection in decimal, standing for the UUID.
\<close>

fun connectionId :: "nat \<Rightarrow> string" where
  "connectionId n =
    (if n < 10 then [char_of (48 + n)]
     else connectionId (n div 10) @ [char_of (48 + n mod 10)])"

definition deliver :: "TagName \<Rightarrow> jsval \<Rightarrow> nat \<Rightarrow> opc_state \<Rightarrow> opc_state" where
  "deliver tagName v cid s =
    (if cid \<in> closedStreams s
     then console_error (''Error sending update to client '' @ connectionId cid @ '':'') s
     else s\<lparr>streams := (streams s)(cid := streams s cid @ [TagMsg tagName v])\<rparr>)"

definition notifyCallbacks :: "TagName \<Rightarrow> jsval \<Rightarrow> opc_state \<Rightarrow> opc_state" where
  "notifyCallbacks tagName v s = fold (deliver tagName v) (onUpdateCallbacks s) s"

definition changed :: "TagName \<Rightarrow> jsval \<Rightarrow> opc_state \<Rightarrow> opc_state" where
  "changed tagName v s =
    notifyCallbacks tagName v
      ((record_event (Notification tagName) s)\<lparr>tagValues := (tagValues s)(tagName \<mapsto> v)\<rparr>)"

definition mockNiveauTick :: "nat \<Rightarrow> opc_state \<Rightarrow> opc_state" where
  "mockNiveauTick newNiveau s =
    notifyCallbacks ''niveau'' (JNum (int newNiveau))
      (s\<lparr>tagValues := (tagValues s)(''niveau'' \<mapsto> JNum (int newNiveau))\<rparr>)"

definition mockCandidates :: "TagName list" where
  "mockCandidates = [''BPpompe'', ''BPvanne'', ''pompe'', ''vanne'']"

definition mockToggleTick :: "nat \<Rightarrow> opc_state \<Rightarrow> opc_state" where
  "mockToggleTick i s =
    notifyCallbacks (mockCandidates ! i) (JBool (\<not> truthy (tagValues s (mockCandidates ! i))))
      (s\<lparr>tagValues :=
           (tagValues s)(mockCandidates ! i \<mapsto> JBool (\<not> truthy (tagValues s (mockCandidates ! i))))\<rparr>)"

section \<open>The SSE route (api/socket)\<close>

definition GET_connect :: "env \<Rightarrow> string \<Rightarrow> opc_state \<Rightarrow> opc_state" where
  "GET_connect e url s =
    (if \<not> isConnected s \<or> getConnectionUrl s \<noteq> url
     then (case connect e url s of
             (True, s1) \<Rightarrow>
               (case readAllTags e s1 of
                  (Inr vals, s2) \<Rightarrow> s2
                | (Inl err, s2) \<Rightarrow>
                    console_error (''Error connecting to OPC-UA server at '' @ url @ '':'') s2)
           | (False, s1) \<Rightarrow> console_error (''Failed to connect to OPC-UA server at '' @ url) s1)
     else s)"

text \<open>
  \<^verbatim>\<open>start(controller)\<close> runs synchronously inside the \<^verbatim>\<open>ReadableStream\<close>
  constructor: it enqueues the keep-alive comment, registers the connection and its update
  callback, and enqueues the initial snapshot. It returns the identity of the new
  connection.
\<close>

definition onTagUpdate :: "nat \<Rightarrow> opc_state \<Rightarrow> opc_state" where
  "onTagUpdate cid s = s\<lparr>onUpdateCallbacks := onUpdateCallbacks s @ [cid]\<rparr>"

definition unsubscribe :: "nat \<Rightarrow> opc_state \<Rightarrow> opc_state" where
  "unsubscribe cid s = s\<lparr>onUpdateCallbacks := filter (\<lambda>cb. cb \<noteq> cid) (onUpdateCallbacks s)\<rparr>"

definition enqueue :: "nat \<Rightarrow> sse \<Rightarrow> opc_state \<Rightarrow> opc_state" where
  "enqueue cid chunk s = s\<lparr>streams := (streams s)(cid := streams s cid @ [chunk])\<rparr>"

definition GET_start :: "opc_state \<Rightarrow> nat \<times> opc_state" where
  "GET_start s =
    (nextId s,
     (let s1 = enqueue (nextId s) Ping
                 (s\<lparr>nextId := Suc (nextId s), streams := (streams s)(nextId s := [])\<rparr>);
          s2 = s1\<lparr>activeConnections := activeConnections s1 @ [nextId s]\<rparr>;
          s3 = onTagUpdate (nextId s) s2
      in enqueue (nextId s) (InitialMsg (getAllTagValues s3)) s3))"

definition abort :: "nat \<Rightarrow> opc_state \<Rightarrow> opc_state" where
  "abort cid s =
    (if cid \<in> set (activeConnections s)
     then unsubscribe cid (s\<lparr>activeConnections := filter (\<lambda>c. c \<noteq> cid) (activeConnections s)\<rparr>)
     else s)"

definition cancel :: "nat \<Rightarrow> opc_state \<Rightarrow> opc_state" where
  "cancel cid s =
    s\<lparr>activeConnections := filter (\<lambda>c. c \<noteq> cid) (activeConnections s),
      closedStreams := insert cid (closedStreams s)\<rparr>"

section \<open>Runs of the server process\<close>

text \<open>
  Everything that can happen to the process, one handler at a time (handlers run to
  completion). A change event is emitted only by a monitored item that was created, the
  mock timers fire only once installed, with \<^verbatim>\<open>Math.floor(Math.random() * 100)\<close>
  below 100 and the candidate index below 4; abort and cancel only concern a connection
  that exists.
\<close>

datatype action =
    Connect env string
  | Disconnect env
  | WriteTag env TagName jsval
  | ReadTag env TagName
  | ReadAllTags env
  | Changed TagName jsval
  | NiveauTick nat
  | ToggleTick nat
  | GetConnect env string
  | GetStart
  | Abort nat
  | Cancel nat

fun step :: "action \<Rightarrow> opc_state \<Rightarrow> opc_state" where
  "step (Connect e url) s = snd (connect e url s)"
| "step (Disconnect e) s = disconnect e s"
| "step (WriteTag e tagName v) s = snd (writeTag e tagName v s)"
| "step (ReadTag e tagName) s = snd (readTag e tagName s)"
| "step (ReadAllTags e) s = snd (readAllTags e s)"
| "step (Changed tagName v) s =
    (if tagName \<in> dom (monitoredItems s) then changed tagName v s else s)"
| "step (NiveauTick r) s = (if 0 < intervals s \<and> r < 100 then mockNiveauTick r s else s)"
| "step (ToggleTick i) s =
    (if 0 < intervals s \<and> i < length mockCandidates then mockToggleTick i s else s)"
| "step (GetConnect e url) s = GET_connect e url s"
| "step GetStart s = snd (GET_start s)"
| "step (Abort cid) s = (if cid < nextId s then abort cid s else s)"
| "step (Cancel cid) s = (if cid < nextId s then cancel cid s else s)"

definition run :: "action list \<Rightarrow> opc_state \<Rightarrow> opc_state" where
  "run acts s = fold step acts s"

section \<open>The reconnection logic of the page (app/page)\<close>

text \<open>
  \<^verbatim>\<open>connectEventSource\<close> declares \<^verbatim>\<open>eventSource\<close> and \<^verbatim>\<open>retryCount\<close> as
  locals, so every call creates a new closure with its own counter, starting at 0, and a
  new \<^verbatim>\<open>EventSource\<close>. The page state is what the handlers set:
  \<^verbatim>\<open>isConnecting\<close>, \<^verbatim>\<open>isConnected\<close>, \<^verbatim>\<open>error\<close> and the store's
  \<^verbatim>\<open>connected\<close> flag. \<open>timeouts\<close> holds the delays of the pending
  \<^verbatim>\<open>setTimeout(connectEventSource, retryDelay)\<close> calls. The two messages of the
  error handler are \<open>ConnectionLostRetrying k m\<close> for
  \<^verbatim>\<open>Connection lost. Retrying (k/m)...\<close> and \<open>FailedAfterMultipleAttempts\<close> for
  \<^verbatim>\<open>Failed to connect after multiple attempts. Please try again.\<close>
\<close>

datatype ui_error = ConnectionLostRetrying nat nat | FailedAfterMultipleAttempts

record EventSourceClosure =
  retryCount :: nat
  closed :: bool

record page_state =
  isConnecting :: bool
  pageIsConnected :: bool
  error :: "ui_error option"
  storeConnected :: bool
  sources :: "EventSourceClosure list"
  timeouts :: "nat list"

definition maxRetries :: nat where
  "maxRetries = 5"

definition retryDelay :: nat where
  "retryDelay = 3000"

definition connectEventSource :: "page_state \<Rightarrow> page_state" where
  "connectEventSource p = p\<lparr>sources := sources p @ [\<lparr>retryCount = 0, closed = False\<rparr>]\<rparr>"

definition onopen :: "nat \<Rightarrow> page_state \<Rightarrow> page_state" where
  "onopen i p =
    p\<lparr>isConnecting := False, pageIsConnected := True, storeConnected := True, error := None,
      sources := (sources p)[i := (sources p ! i)\<lparr>retryCount := 0\<rparr>]\<rparr>"

definition onerror :: "nat \<Rightarrow> page_state \<Rightarrow> page_state" where
  "onerror i p =
    (if retryCount (sources p ! i) < maxRetries
     then p\<lparr>error := Some (ConnectionLostRetrying (retryCount (sources p ! i) + 1) maxRetries),
            sources := (sources p)[i := \<lparr>retryCount = retryCount (sources p ! i) + 1, closed = True\<rparr>],
            timeouts := timeouts p @ [retryDelay]\<rparr>
     else p\<lparr>error := Some FailedAfterMultipleAttempts, isConnecting := False,
            pageIsConnected := False, storeConnected := False,
            sources := (sources p)[i := (sources p ! i)\<lparr>closed := True\<rparr>]\<rparr>)"

text \<open>
  The browser's side: an \<^verbatim>\<open>EventSource\<close> dispatches \<^verbatim>\<open>open\<close> and
  \<^verbatim>\<open>error\<close> only until it is closed, and a pending timeout fires by calling
  \<^verbatim>\<open>connectEventSource\<close>. \<open>handleConnect_success\<close> is the state in which
  \<^verbatim>\<open>handleConnect\<close> leaves the page after a successful connection test.
\<close>

datatype page_event = OpenEvent nat | ErrorEvent nat | TimeoutFires

fun page_step :: "page_event \<Rightarrow> page_state \<Rightarrow> page_state" where
  "page_step (OpenEvent i) p =
    (if i < length (sources p) \<and> \<not> closed (sources p ! i) then onopen i p else p)"
| "page_step (ErrorEvent i) p =
    (if i < length (sources p) \<and> \<not> closed (sources p ! i) then onerror i p else p)"
| "page_step TimeoutFires p =
    (case timeouts p of
       [] \<Rightarrow> p
     | d # rest \<Rightarrow> connectEventSource (p\<lparr>timeouts := rest\<rparr>))"

definition page_run :: "page_event list \<Rightarrow> page_state \<Rightarrow> page_state" where
  "page_run evs p = fold page_step evs p"

definition handleConnect_success :: page_state where
  "handleConnect_success =
    connectEventSource
      \<lparr>isConnecting = True, pageIsConnected = False, error = None, storeConnected = False,
       sources = [], timeouts = []\<rparr>"

text \<open>
  \<open>consecutive_failures n k\<close>: \<open>n\<close> connection attempts fail one after the other,
  starting with the channel numbered \<open>k\<close>; between two failures the scheduled retry
  fires and opens the next channel.
\<close>

fun consecutive_failures :: "nat \<Rightarrow> nat \<Rightarrow> page_event list" where
  "consecutive_failures 0 k = []"
| "consecutive_failures (Suc 0) k = [ErrorEvent k]"
| "consecutive_failures (Suc (Suc n)) k = ErrorEvent k # TimeoutFires # consecutive_failures (Suc n) (Suc k)"

section \<open>Concrete configurations\<close>

text \<open>
  A controller that answers every request, and variations of it in which one operation of
  the primitive fails; the state of the wrapper after a successful \<^verbatim>\<open>connect\<close>.
\<close>

definition localhost :: string where
  "localhost = ''opc.tcp://localhost:4334''"

definition env_ok :: env where
  "env_ok =
    \<lparr>NODE_ENV = Some ''production'', client_connect = (\<lambda>url. ConnectResolved),
     client_createSession = Resolved ClientSession,
     ClientSubscription_create = Resolved ClientSubscription,
     ClientMonitoredItem_create = (\<lambda>n. Resolved ClientMonitoredItem),
     subscription_terminate = Resolved (), session_close = Resolved (),
     client_disconnect = Resolved (),
     session_write = (\<lambda>w. Resolved True),
     session_read = (\<lambda>n. Resolved \<lparr>statusCode_isGood = True, value_value = JNum 42\<rparr>)\<rparr>"

definition env_terminate_fails :: env where
  "env_terminate_fails = env_ok\<lparr>subscription_terminate := Rejected\<rparr>"

definition env_unreachable :: "string \<Rightarrow> env" where
  "env_unreachable mode =
    env_ok\<lparr>NODE_ENV := Some mode, client_connect := (\<lambda>url. ConnectionTimeout)\<rparr>"

definition env_write_bad :: env where
  "env_write_bad = env_ok\<lparr>session_write := (\<lambda>w. Resolved False)\<rparr>"

definition env_write_throws :: env where
  "env_write_throws = env_ok\<lparr>session_write := (\<lambda>w. Rejected)\<rparr>"

definition env_read_bad :: env where
  "env_read_bad =
    env_ok\<lparr>session_read := (\<lambda>n. Resolved \<lparr>statusCode_isGood = False, value_value = JNum 0\<rparr>)\<rparr>"

definition connected_state :: opc_state where
  "connected_state = snd (connect env_ok localhost constructor)"

definition ARU_info :: TagInfo where
  "ARU_info =
    \<lparr>nodeId = ''ns=4;s=ARU'', tagType = Boolean, access = [Read, Write],
     description = ''Emergency stop button''\<rparr>"

definition niveau_info :: TagInfo where
  "niveau_info =
    \<lparr>nodeId = ''ns=4;s=niveau'', tagType = Int16, access = [Read],
     description = ''Water level''\<rparr>"

definition write_then_no_read :: "action list" where
  "write_then_no_read = [Connect env_ok localhost, WriteTag env_ok ''ARU'' (JBool True)]"

definition mock_fallback_run :: "action list" where
  "mock_fallback_run = [Connect (env_unreachable ''development'') localhost]"

section \<open>Predicates used in the statements and invariants\<close>


fun isTagMsg :: "sse \<Rightarrow> bool" where
  "isTagMsg (TagMsg tagName v) = True"
| "isTagMsg m = False"

text \<open>
  \<open>initial_first cid snap s\<close>: the stream of connection \<open>cid\<close> begins with the
  keep-alive comment and the snapshot \<open>snap\<close>, and every other chunk on it is a
  per-tag message.
\<close>

definition initial_first :: "nat \<Rightarrow> (TagName \<rightharpoonup> jsval) \<Rightarrow> opc_state \<Rightarrow> bool" where
  "initial_first cid snap s =
    (cid < nextId s \<and> take 2 (streams s cid) = [Ping, InitialMsg snap]
     \<and> filter (\<lambda>m. \<not> isTagMsg m) (streams s cid) = [Ping, InitialMsg snap])"

definition readable :: "TagName \<Rightarrow> bool" where
  "readable T = (case map_of tags T of None \<Rightarrow> False | Some tag \<Rightarrow> Read \<in> set (access tag))"

text \<open>
  \<open>justified T tr\<close>: the history \<open>tr\<close> holds a good read, a change notification or
  an acknowledged write of \<open>T\<close>, or a run of the mock initialisation.
\<close>

definition justified :: "TagName \<Rightarrow> event list \<Rightarrow> bool" where
  "justified T tr =
    (GoodRead T \<in> set tr \<or> Notification T \<in> set tr \<or> GoodWrite T \<in> set tr
     \<or> MockData \<in> set tr)"

definition store_inv :: "opc_state \<Rightarrow> bool" where
  "store_inv s =
    ((\<forall>T v. tagValues s T = Some v \<longrightarrow> v \<noteq> JNull \<longrightarrow> readable T \<and> justified T (trace s))
     \<and> (\<forall>T. T \<in> dom (monitoredItems s) \<longrightarrow> readable T)
     \<and> (0 < intervals s \<longrightarrow> MockData \<in> set (trace s)))"

definition core ::
  "opc_state \<Rightarrow> (TagName \<rightharpoonup> jsval) \<times> (TagName \<rightharpoonup> ClientMonitoredItem) \<times> nat \<times> event list" where
  "core s = (tagValues s, monitoredItems s, intervals s, trace s)"

section \<open>Facts about the registry and the concrete configurations\<close>

lemma tags_readable: "map_of tags T = Some tag \<Longrightarrow> Read \<in> set (access tag)"
  by (auto simp: tags_def split: if_splits)


lemma registered_readable: "map_of tags T = Some tag \<Longrightarrow> readable T"
  by (simp add: readable_def tags_readable)

lemma tags_niveau: "map_of tags ''niveau'' = Some niveau_info"
  by code_simp

lemma tags_ARU: "map_of tags ''ARU'' = Some ARU_info"
  by code_simp

lemma tags_debit: "map_of tags ''debit'' = None"
  by code_simp

lemma niveau_not_writable: "Write \<notin> set (access niveau_info)"
  by code_simp

lemma niveau_readable: "Read \<in> set (access niveau_info)"
  by code_simp

lemma ARU_writable: "Write \<in> set (access ARU_info)"
  by code_simp

lemma connected_state_session: "session connected_state \<noteq> None"
  by code_simp

lemma connected_state_subscription: "subscription connected_state \<noteq> None"
  by code_simp

lemma connected_state_connected: "connected connected_state"
  by code_simp

lemma constructor_not_connected: "\<not> connected constructor"
  by code_simp

section \<open>The write path\<close>

text \<open>
  C4. For a registered tag \<open>T\<close>, \<^verbatim>\<open>writeTag\<close> returns \<^verbatim>\<open>true\<close> only if
  \<open>Write\<close> is in the access list of \<open>T\<close>. The connection is tested first: without a
  session or with the connected flag down the call returns \<^verbatim>\<open>false\<close> and logs
  "Not connected to OPC-UA server" (the NotConnected failure). The access list is tested
  second: with a connected session and no \<open>Write\<close> access the call returns
  \<^verbatim>\<open>false\<close> and logs "Tag T is not writable" (the Unwritable failure). In both
  failures nothing but the console changes, so the stored values are the same.
\<close>

theorem writeTag_access_checks:
  assumes "map_of tags T = Some tag"
  shows "(fst (writeTag e T v s) = Inr True \<longrightarrow> Write \<in> set (access tag))
    \<and> (session s = None \<or> \<not> connected s \<longrightarrow>
         writeTag e T v s = (Inr False, console_error ''Not connected to OPC-UA server'' s))
    \<and> (session s \<noteq> None \<and> connected s \<and> Write \<notin> set (access tag) \<longrightarrow>
         writeTag e T v s = (Inr False, console_error (''Tag '' @ T @ '' is not writable'') s))
    \<and> (session s = None \<or> \<not> connected s \<or> Write \<notin> set (access tag) \<longrightarrow>
         tagValues (snd (writeTag e T v s)) = tagValues s
         \<and> getAllTagValues (snd (writeTag e T v s)) T = getAllTagValues s T)"
  using assms
  by (auto simp: writeTag_def console_error_def getAllTagValues_def split: promise.splits)

theorem writeTag_access_checks_witness:
  "map_of tags ''niveau'' = Some niveau_info
   \<and> writeTag env_ok ''niveau'' (JNum 10) connected_state
       = (Inr False, console_error ''Tag niveau is not writable'' connected_state)
   \<and> tagValues (snd (writeTag env_ok ''niveau'' (JNum 10) connected_state))
       = tagValues connected_state
   \<and> writeTag env_ok ''ARU'' (JBool True) constructor
       = (Inr False, console_error ''Not connected to OPC-UA server'' constructor)
   \<and> fst (writeTag env_ok ''ARU'' (JBool True) connected_state) = Inr True
   \<and> Write \<in> set (access ARU_info)"
proof -
  have ok: "fst (writeTag env_ok ''ARU'' (JBool True) connected_state) = Inr True"
    by code_simp
  show ?thesis
    using writeTag_access_checks [OF tags_niveau, of env_ok "JNum 10" connected_state]
      writeTag_access_checks [OF tags_ARU, of env_ok "JBool True" constructor]
      writeTag_access_checks [OF tags_ARU, of env_ok "JBool True" connected_state]
      tags_niveau niveau_not_writable connected_state_session connected_state_connected
      constructor_not_connected ok
    by (simp add: console_error_def)
qed

text \<open>
  C5. For a writable registered tag and a connected session: when the controller
  acknowledges the write with a good status, \<^verbatim>\<open>writeTag\<close> returns \<^verbatim>\<open>true\<close>,
  the entry of \<open>T\<close> becomes the written value, every other entry and the connected flag
  stay as they were (nothing is read back); when the status is bad or the write throws,
  it returns \<^verbatim>\<open>false\<close> and the whole store is untouched.
\<close>

theorem writeTag_commit:
  assumes "map_of tags T = Some tag" and "Write \<in> set (access tag)"
    and "session s \<noteq> None" and "connected s"
  shows "(session_write e (nodeToWrite tag v) = Resolved True \<longrightarrow>
           fst (writeTag e T v s) = Inr True
           \<and> tagValues (snd (writeTag e T v s)) T = Some v
           \<and> (\<forall>T'. T' \<noteq> T \<longrightarrow> tagValues (snd (writeTag e T v s)) T' = tagValues s T')
           \<and> connected (snd (writeTag e T v s)) = connected s)
    \<and> (session_write e (nodeToWrite tag v) = Resolved False
         \<or> session_write e (nodeToWrite tag v) = Rejected \<longrightarrow>
           fst (writeTag e T v s) = Inr False
           \<and> tagValues (snd (writeTag e T v s)) = tagValues s
           \<and> connected (snd (writeTag e T v s)) = connected s)"
  using assms
  by (auto simp: writeTag_def console_error_def record_event_def split: promise.splits)

theorem writeTag_commit_witness:
  "fst (writeTag env_ok ''ARU'' (JBool True) connected_state) = Inr True
   \<and> tagValues (snd (writeTag env_ok ''ARU'' (JBool True) connected_state)) ''ARU''
       = Some (JBool True)
   \<and> tagValues (snd (writeTag env_ok ''ARU'' (JBool True) connected_state)) ''niveau''
       = tagValues connected_state ''niveau''
   \<and> connected (snd (writeTag env_ok ''ARU'' (JBool True) connected_state))
   \<and> fst (writeTag env_write_bad ''ARU'' (JBool True) connected_state) = Inr False
   \<and> tagValues (snd (writeTag env_write_bad ''ARU'' (JBool True) connected_state))
       = tagValues connected_state
   \<and> fst (writeTag env_write_throws ''ARU'' (JBool True) connected_state) = Inr False
   \<and> tagValues (snd (writeTag env_write_throws ''ARU'' (JBool True) connected_state))
       = tagValues connected_state"
proof -
  note w = writeTag_commit [OF tags_ARU ARU_writable connected_state_session
      connected_state_connected]
  have "session_write env_ok w = Resolved True"
    and "session_write env_write_bad w = Resolved False"
    and "session_write env_write_throws w = Rejected" for w
    by (simp_all add: env_ok_def env_write_bad_def env_write_throws_def)
  with w [of env_ok "JBool True"] w [of env_write_bad "JBool True"]
    w [of env_write_throws "JBool True"] connected_state_connected
  show ?thesis by simp
qed



text \<open>
  C7, as amended. For a name that is not a key of the registry, \<^verbatim>\<open>writeTag\<close> and
  \<^verbatim>\<open>readTag\<close> never succeed and never touch the store, but there is no UnknownTag
  error: without a connected session they report the not-connected failure
  (\<^verbatim>\<open>false\<close>, \<^verbatim>\<open>null\<close>), and with one the promise is rejected with the
  \<^verbatim>\<open>TypeError\<close> of reading a property of \<^verbatim>\<open>undefined\<close>.
\<close>

theorem unknown_tag_operations:
  assumes "map_of tags T = None"
  shows "(session s = None \<or> \<not> connected s \<longrightarrow>
            writeTag e T v s = (Inr False, console_error ''Not connected to OPC-UA server'' s)
            \<and> readTag e T s = (Inr JNull, console_error ''Not connected to OPC-UA server'' s))
    \<and> (session s \<noteq> None \<and> connected s \<longrightarrow>
            writeTag e T v s = (Inl TypeError, s) \<and> readTag e T s = (Inl TypeError, s))
    \<and> fst (writeTag e T v s) \<noteq> Inr True
    \<and> tagValues (snd (writeTag e T v s)) = tagValues s
    \<and> tagValues (snd (readTag e T s)) = tagValues s"
  using assms by (auto simp: writeTag_def readTag_def console_error_def)

theorem unknown_tag_operations_witness:
  "writeTag env_ok ''debit'' (JNum 3) constructor
     = (Inr False, console_error ''Not connected to OPC-UA server'' constructor)
   \<and> readTag env_ok ''debit'' constructor
     = (Inr JNull, console_error ''Not connected to OPC-UA server'' constructor)
   \<and> writeTag env_ok ''debit'' (JNum 3) connected_state = (Inl TypeError, connected_state)
   \<and> readTag env_ok ''debit'' connected_state = (Inl TypeError, connected_state)"
  using unknown_tag_operations [OF tags_debit, of constructor env_ok "JNum 3"]
    unknown_tag_operations [OF tags_debit, of connected_state env_ok "JNum 3"]
    constructor_not_connected connected_state_session connected_state_connected
  by simp

text \<open>
  The claim as stated fails on a connected session: the write of an unregistered name
  ends in an untyped exception.
\<close>

theorem unknown_tag_counterexample:
  "fst (writeTag env_ok ''debit'' (JBool True) connected_state) = Inl TypeError"
  by code_simp

section \<open>The read path\<close>

text \<open>
  C10. For a registered tag, \<^verbatim>\<open>readTag\<close> always resolves (it never rejects). It
  resolves to \<^verbatim>\<open>null\<close> and leaves the store as it was when there is no connected
  session, when the tag has no \<open>Read\<close> access, when the read throws and when its status
  is not good; on a good status it resolves to the value read and stores it under the tag.
\<close>

theorem readTag_total:
  assumes "map_of tags T = Some tag"
  shows "(\<exists>v. fst (readTag e T s) = Inr v)
    \<and> (session s = None \<or> \<not> connected s \<or> Read \<notin> set (access tag)
         \<or> session_read e (nodeId tag) = Rejected
         \<or> (\<exists>dv. session_read e (nodeId tag) = Resolved dv \<and> \<not> statusCode_isGood dv) \<longrightarrow>
           fst (readTag e T s) = Inr JNull \<and> tagValues (snd (readTag e T s)) = tagValues s)
    \<and> (\<forall>dv. session s \<noteq> None \<and> connected s \<and> Read \<in> set (access tag)
           \<and> session_read e (nodeId tag) = Resolved dv \<and> statusCode_isGood dv \<longrightarrow>
           fst (readTag e T s) = Inr (value_value dv)
           \<and> tagValues (snd (readTag e T s)) = (tagValues s)(T \<mapsto> value_value dv))"
  using assms
  by (auto simp: readTag_def console_error_def record_event_def split: promise.splits)

theorem readTag_total_witness:
  "fst (readTag env_ok ''niveau'' constructor) = Inr JNull
   \<and> tagValues (snd (readTag env_ok ''niveau'' constructor)) = tagValues constructor
   \<and> fst (readTag env_read_bad ''niveau'' connected_state) = Inr JNull
   \<and> tagValues (snd (readTag env_read_bad ''niveau'' connected_state))
       = tagValues connected_state
   \<and> fst (readTag env_ok ''niveau'' connected_state) = Inr (JNum 42)
   \<and> tagValues (snd (readTag env_ok ''niveau'' connected_state))
       = (tagValues connected_state)(''niveau'' \<mapsto> JNum 42)"
proof -
  note r = readTag_total [OF tags_niveau]
  have bad: "session_read env_read_bad n
      = Resolved \<lparr>statusCode_isGood = False, value_value = JNum 0\<rparr>" for n
    by (simp add: env_read_bad_def env_ok_def)
  have good: "session_read env_ok n
      = Resolved \<lparr>statusCode_isGood = True, value_value = JNum 42\<rparr>" for n
    by (simp add: env_ok_def)
  from r [of env_ok constructor] constructor_not_connected
  have 1: "fst (readTag env_ok ''niveau'' constructor) = Inr JNull
      \<and> tagValues (snd (readTag env_ok ''niveau'' constructor)) = tagValues constructor"
    by simp
  from r [of env_read_bad connected_state] bad
  have 2: "fst (readTag env_read_bad ''niveau'' connected_state) = Inr JNull
      \<and> tagValues (snd (readTag env_read_bad ''niveau'' connected_state))
          = tagValues connected_state"
    by simp
  from r [of env_ok connected_state] good connected_state_session connected_state_connected
    niveau_readable
  have 3: "fst (readTag env_ok ''niveau'' connected_state) = Inr (JNum 42)
      \<and> tagValues (snd (readTag env_ok ''niveau'' connected_state))
          = (tagValues connected_state)(''niveau'' \<mapsto> JNum 42)"
    by simp
  from 1 2 3 show ?thesis by simp
qed

section \<open>Teardown\<close>

text \<open>
  C3, as amended. \<^verbatim>\<open>disconnect\<close> never rejects, and on a wrapper that is not
  connected it changes nothing. On a connected wrapper it calls the teardown operations
  in the order subscription, session, transport (skipping a handle that is absent), inside
  one \<^verbatim>\<open>try\<close> block: when all of them succeed, both handles are cleared and the
  connected flag is lowered; when one of them fails, the error is logged, the operations
  after it are not attempted, and the connected flag stays up.
\<close>

theorem disconnect_teardown:
  "(\<not> connected s \<longrightarrow> disconnect e s = s)
   \<and> (connected s \<longrightarrow>
        (if subscription s \<noteq> None \<and> subscription_terminate e = Rejected
         then trace (disconnect e s) = trace s @ [Call SubscriptionTerminate]
              \<and> console (disconnect e s) = console s @ [''Error during disconnection:'']
              \<and> connected (disconnect e s) \<and> session (disconnect e s) = session s
              \<and> subscription (disconnect e s) = subscription s
         else if session s \<noteq> None \<and> session_close e = Rejected
         then trace (disconnect e s)
                = trace s @ (if subscription s = None then [] else [Call SubscriptionTerminate])
                    @ [Call SessionClose]
              \<and> console (disconnect e s) = console s @ [''Error during disconnection:'']
              \<and> connected (disconnect e s) \<and> session (disconnect e s) = session s
              \<and> subscription (disconnect e s) = None
         else if client_disconnect e = Rejected
         then trace (disconnect e s)
                = trace s @ (if subscription s = None then [] else [Call SubscriptionTerminate])
                    @ (if session s = None then [] else [Call SessionClose])
                    @ [Call ClientDisconnect]
              \<and> console (disconnect e s) = console s @ [''Error during disconnection:'']
              \<and> connected (disconnect e s) \<and> session (disconnect e s) = None
              \<and> subscription (disconnect e s) = None
         else trace (disconnect e s)
                = trace s @ (if subscription s = None then [] else [Call SubscriptionTerminate])
                    @ (if session s = None then [] else [Call SessionClose])
                    @ [Call ClientDisconnect]
              \<and> console (disconnect e s) = console s
              \<and> \<not> connected (disconnect e s) \<and> session (disconnect e s) = None
              \<and> subscription (disconnect e s) = None))"
  by (cases "subscription_terminate e"; cases "session_close e"; cases "client_disconnect e";
      cases "subscription s"; cases "session s")
     (simp_all add: disconnect_def disconnect_try_def terminate_step_def close_step_def
        client_disconnect_step_def console_error_def record_event_def)

theorem disconnect_teardown_witness:
  "disconnect env_ok constructor = constructor
   \<and> trace (disconnect env_ok connected_state)
       = trace connected_state @ [Call SubscriptionTerminate, Call SessionClose, Call ClientDisconnect]
   \<and> \<not> connected (disconnect env_ok connected_state)
   \<and> disconnect env_ok (disconnect env_ok connected_state) = disconnect env_ok connected_state
   \<and> trace (disconnect env_terminate_fails connected_state)
       = trace connected_state @ [Call SubscriptionTerminate]
   \<and> console (disconnect env_terminate_fails connected_state)
       = console connected_state @ [''Error during disconnection:'']
   \<and> connected (disconnect env_terminate_fails connected_state)"
proof -
  have ok: "subscription_terminate env_ok = Resolved ()" "session_close env_ok = Resolved ()"
    "client_disconnect env_ok = Resolved ()"
    by (simp_all add: env_ok_def)
  have fails: "subscription_terminate env_terminate_fails = Rejected"
    by (simp add: env_terminate_fails_def)
  from disconnect_teardown [of constructor env_ok] constructor_not_connected
  have 1: "disconnect env_ok constructor = constructor"
    by simp
  from disconnect_teardown [of connected_state env_ok] ok connected_state_connected
    connected_state_session connected_state_subscription
  have 2: "trace (disconnect env_ok connected_state)
      = trace connected_state @ [Call SubscriptionTerminate, Call SessionClose, Call ClientDisconnect]
    \<and> \<not> connected (disconnect env_ok connected_state)"
    by simp
  with disconnect_teardown [of "disconnect env_ok connected_state" env_ok]
  have 3: "disconnect env_ok (disconnect env_ok connected_state)
      = disconnect env_ok connected_state"
    by simp
  from disconnect_teardown [of connected_state env_terminate_fails] fails
    connected_state_connected connected_state_subscription
  have 4: "trace (disconnect env_terminate_fails connected_state)
      = trace connected_state @ [Call SubscriptionTerminate]
    \<and> console (disconnect env_terminate_fails connected_state)
      = console connected_state @ [''Error during disconnection:'']
    \<and> connected (disconnect env_terminate_fails connected_state)"
    by simp
  from 1 2 3 4 show ?thesis by simp
qed

text \<open>
  The claim as stated fails when terminating the subscription fails: the session is not
  closed, the transport is not disconnected, and the wrapper still counts as connected.
\<close>

theorem disconnect_best_effort_counterexample:
  "Call SessionClose \<notin> set (trace (disconnect env_terminate_fails connected_state))
   \<and> Call ClientDisconnect \<notin> set (trace (disconnect env_terminate_fails connected_state))
   \<and> session (disconnect env_terminate_fails connected_state) = Some ClientSession
   \<and> connected (disconnect env_terminate_fails connected_state)"
  by code_simp

section \<open>The mock fallback of connect\<close>

lemma monitorTag_frame:
  "tagValues (monitorTag e t s) = tagValues s \<and> intervals (monitorTag e t s) = intervals s
   \<and> connected (monitorTag e t s) = connected s"
  by (simp add: monitorTag_def console_error_def record_event_def
      split: option.splits promise.splits)

lemma monitorAll_frame:
  "tagValues (fold (monitorReadable e) ts s) = tagValues s
   \<and> intervals (fold (monitorReadable e) ts s) = intervals s
   \<and> connected (fold (monitorReadable e) ts s) = connected s"
  by (induction ts arbitrary: s) (simp_all add: monitorReadable_def monitorTag_frame)

lemma createSubscription_frame:
  "tagValues (createSubscription e s) = tagValues s
   \<and> intervals (createSubscription e s) = intervals s
   \<and> connected (createSubscription e s) = connected s"
  by (simp add: createSubscription_def monitorAll_frame console_error_def record_event_def
      split: promise.splits)

lemma disconnect_frame:
  "tagValues (disconnect e s) = tagValues s \<and> intervals (disconnect e s) = intervals s"
  by (cases "subscription_terminate e"; cases "session_close e"; cases "client_disconnect e";
      cases "subscription s"; cases "session s")
     (simp_all add: disconnect_def disconnect_try_def terminate_step_def close_step_def
        client_disconnect_step_def console_error_def record_event_def)

lemma connect_try_frame:
  "connect_try e url s = Inr s1 \<Longrightarrow>
     tagValues s1 = tagValues s \<and> intervals s1 = intervals s \<and> connected s1"
  "connect_try e url s = Inl s1 \<Longrightarrow>
     tagValues s1 = tagValues s \<and> intervals s1 = intervals s
     \<and> (client_connect e url \<noteq> ConnectResolved \<or> client_createSession e = Rejected)"
  by (auto simp: connect_try_def createSubscription_frame record_event_def
      split: connect_race.splits promise.splits)

lemma connect_try_fails:
  "client_connect e url \<noteq> ConnectResolved \<or> client_createSession e = Rejected
     \<Longrightarrow> \<exists>s1. connect_try e url s = Inl s1"
  by (auto simp: connect_try_def split: connect_race.splits promise.splits)

text \<open>
  C2, as amended. The wrapper has one connection flag and no separate degraded state.
  When a connection attempt fails and \<^verbatim>\<open>NODE_ENV\<close> is "development",
  \<^verbatim>\<open>connect\<close> installs the mock data (the store becomes the mock's ten values)
  and its timers, raises the connected flag and returns \<^verbatim>\<open>true\<close>, so
  \<^verbatim>\<open>isConnected()\<close> reports a connection exactly as it does for a real one. With any other \<^verbatim>\<open>NODE_ENV\<close>, \<^verbatim>\<open>connect\<close> never
  installs the mock timers or touches the stored values, and a failed attempt returns
  \<^verbatim>\<open>false\<close> to the caller.
\<close>

theorem connect_fallback:
  "(\<not> (connected s \<and> currentUrl s = url)
      \<and> (client_connect e url \<noteq> ConnectResolved \<or> client_createSession e = Rejected)
      \<and> NODE_ENV e = Some ''development'' \<longrightarrow>
        fst (connect e url s) = True \<and> isConnected (snd (connect e url s))
        \<and> tagValues (snd (connect e url s))
            = map_of [(''ARU'', JBool False), (''AUT'', JBool False), (''BPpompe'', JBool True),
                      (''BPvanne'', JBool True), (''REA'', JBool False),
                      (''arret'', JBool False), (''marche'', JBool True),
                      (''niveau'', JNum 65), (''pompe'', JBool True), (''vanne'', JBool True)]
        \<and> intervals (snd (connect e url s)) = Suc (intervals s)
        \<and> MockData \<in> set (trace (snd (connect e url s))))
   \<and> (NODE_ENV e \<noteq> Some ''development'' \<longrightarrow>
        intervals (snd (connect e url s)) = intervals s
        \<and> tagValues (snd (connect e url s)) = tagValues s
        \<and> (\<not> (connected s \<and> currentUrl s = url)
            \<and> (client_connect e url \<noteq> ConnectResolved \<or> client_createSession e = Rejected) \<longrightarrow>
              fst (connect e url s) = False))"
proof -
  let ?s0 = "if connected s \<and> currentUrl s \<noteq> url then disconnect e s else s"
  have s0: "tagValues ?s0 = tagValues s \<and> intervals ?s0 = intervals s"
    by (simp add: disconnect_frame)
  show ?thesis
  proof (cases "connect_try e url ?s0")
    case (Inl s1)
    with connect_try_frame(2) [of e url ?s0 s1] s0 show ?thesis
      by (auto simp: connect_def connect_catch_def mockTagValues_def console_error_def
          record_event_def isConnected_def)
  next
    case (Inr s1)
    with connect_try_frame(1) [of e url ?s0 s1] connect_try_fails [of e url ?s0] s0
    show ?thesis
      by (auto simp: connect_def)
  qed
qed

theorem connect_fallback_witness:
  "fst (connect (env_unreachable ''development'') localhost constructor) = True
   \<and> isConnected (snd (connect (env_unreachable ''development'') localhost constructor))
   \<and> tagValues (snd (connect (env_unreachable ''development'') localhost constructor))
        ''niveau'' = Some (JNum 65)
   \<and> tagValues (snd (connect (env_unreachable ''development'') localhost constructor))
        ''ARU'' = Some (JBool False)
   \<and> intervals (snd (connect (env_unreachable ''development'') localhost constructor))
       = Suc (intervals constructor)
   \<and> fst (connect (env_unreachable ''production'') localhost constructor) = False
   \<and> intervals (snd (connect (env_unreachable ''production'') localhost constructor))
       = intervals constructor
   \<and> tagValues (snd (connect (env_unreachable ''production'') localhost constructor))
       = tagValues constructor"
proof -
  have dev: "NODE_ENV (env_unreachable ''development'') = Some ''development''"
    and prod: "NODE_ENV (env_unreachable ''production'') \<noteq> Some ''development''"
    and down: "client_connect (env_unreachable m) localhost \<noteq> ConnectResolved" for m
    by (simp_all add: env_unreachable_def)
  from connect_fallback [of constructor localhost "env_unreachable ''development''"]
    connect_fallback [of constructor localhost "env_unreachable ''production''"]
    dev prod down constructor_not_connected
  show ?thesis by simp
qed

text \<open>
  The claim as stated fails: after the fallback the state reported to consumers is
  "connected", while the values served are the mock's.
\<close>

theorem mock_fallback_counterexample:
  "fst (connect (env_unreachable ''development'') localhost constructor)
   \<and> isConnected (snd (connect (env_unreachable ''development'') localhost constructor))
   \<and> getAllTagValues (snd (connect (env_unreachable ''development'') localhost constructor))
        ''niveau'' = Some (JNum 65)"
  by code_simp

section \<open>The SSE route: the initial snapshot\<close>

lemma initial_first_frame:
  "streams s' = streams s \<Longrightarrow> nextId s' = nextId s \<Longrightarrow> initial_first cid snap s \<Longrightarrow> initial_first cid snap s'"
  by (simp add: initial_first_def)

lemma take2_append: "take 2 xs = [a, b] \<Longrightarrow> take 2 (xs @ ys) = [a, b]"
  by (cases xs; cases "tl xs") auto

lemma deliver_initial_first:
  "initial_first cid snap s \<Longrightarrow> initial_first cid snap (deliver t v c s)"
  by (auto simp: initial_first_def deliver_def console_error_def intro: take2_append
      simp del: take_append)

lemma fold_deliver_initial_first:
  "initial_first cid snap s \<Longrightarrow> initial_first cid snap (fold (deliver t v) cbs s)"
  by (induction cbs arbitrary: s) (simp_all add: deliver_initial_first)

lemma notifyCallbacks_initial_first:
  "initial_first cid snap s \<Longrightarrow> initial_first cid snap (notifyCallbacks t v s)"
  by (simp add: notifyCallbacks_def fold_deliver_initial_first)

lemma disconnect_route:
  "streams (disconnect e s) = streams s \<and> nextId (disconnect e s) = nextId s"
  by (cases "subscription_terminate e"; cases "session_close e"; cases "client_disconnect e";
      cases "subscription s"; cases "session s")
     (simp_all add: disconnect_def disconnect_try_def terminate_step_def close_step_def
        client_disconnect_step_def console_error_def record_event_def)

lemma monitorTag_route:
  "streams (monitorTag e t s) = streams s \<and> nextId (monitorTag e t s) = nextId s"
  by (simp add: monitorTag_def console_error_def record_event_def split: option.splits promise.splits)

lemma monitorAll_route:
  "streams (fold (monitorReadable e) ts s) = streams s
   \<and> nextId (fold (monitorReadable e) ts s) = nextId s"
  by (induction ts arbitrary: s) (simp_all add: monitorReadable_def monitorTag_route)

lemma createSubscription_route:
  "streams (createSubscription e s) = streams s \<and> nextId (createSubscription e s) = nextId s"
  by (simp add: createSubscription_def monitorAll_route console_error_def record_event_def
      split: promise.splits)

lemma connect_try_route:
  "connect_try e url s = Inr s1 \<Longrightarrow> streams s1 = streams s \<and> nextId s1 = nextId s"
  "connect_try e url s = Inl s1 \<Longrightarrow> streams s1 = streams s \<and> nextId s1 = nextId s"
  by (auto simp: connect_try_def createSubscription_route record_event_def
      split: connect_race.splits promise.splits)

lemma connect_route:
  "streams (snd (connect e url s)) = streams s \<and> nextId (snd (connect e url s)) = nextId s"
proof -
  let ?s0 = "if connected s \<and> currentUrl s \<noteq> url then disconnect e s else s"
  have s0: "streams ?s0 = streams s \<and> nextId ?s0 = nextId s"
    by (simp add: disconnect_route)
  show ?thesis
  proof (cases "connect_try e url ?s0")
    case (Inl s1)
    with connect_try_route(2) [of e url ?s0 s1] s0 show ?thesis
      by (auto simp: connect_def connect_catch_def mockTagValues_def console_error_def
          record_event_def)
  next
    case (Inr s1)
    with connect_try_route(1) [of e url ?s0 s1] s0 show ?thesis
      by (auto simp: connect_def)
  qed
qed

lemma writeTag_route:
  "streams (snd (writeTag e t v s)) = streams s \<and> nextId (snd (writeTag e t v s)) = nextId s"
  by (simp add: writeTag_def console_error_def record_event_def split: option.splits promise.splits)

lemma readTag_route:
  "streams (snd (readTag e t s)) = streams s \<and> nextId (snd (readTag e t s)) = nextId s"
  by (simp add: readTag_def console_error_def record_event_def split: option.splits promise.splits)

lemma readPromises_route:
  "streams (snd (readPromises e ts s)) = streams s \<and> nextId (snd (readPromises e ts s)) = nextId s"
proof (induction ts arbitrary: s)
  case Nil
  then show ?case by simp
next
  case (Cons t ts)
  from Cons.IH [of "snd (readTag e t s)"] readTag_route [of e t s] show ?case
    by (auto split: prod.splits)
qed

lemma fold_storeResult_route:
  "streams (fold storeResult vs s) = streams s \<and> nextId (fold storeResult vs s) = nextId s"
  by (induction vs arbitrary: s) (simp_all add: storeResult_def)

lemma readAllTags_route:
  "streams (snd (readAllTags e s)) = streams s \<and> nextId (snd (readAllTags e s)) = nextId s"
  using readPromises_route [of e readableKeys s]
  by (auto simp: readAllTags_def console_error_def fold_storeResult_route
      split: prod.splits sum.splits)

lemma GET_connect_route:
  "streams (GET_connect e url s) = streams s \<and> nextId (GET_connect e url s) = nextId s"
  using connect_route [of e url s] readAllTags_route [of e "snd (connect e url s)"]
  by (auto simp: GET_connect_def console_error_def split: prod.splits sum.splits bool.splits)

lemma step_initial_first:
  "initial_first cid snap s \<Longrightarrow> initial_first cid snap (step a s)"
proof (cases a)
  case (Connect e url)
  then show "initial_first cid snap s \<Longrightarrow> ?thesis"
    using connect_route [of e url s] by (simp add: initial_first_def)
next
  case (Disconnect e)
  then show "initial_first cid snap s \<Longrightarrow> ?thesis"
    using disconnect_route [of e s] by (simp add: initial_first_def)
next
  case (WriteTag e t v)
  then show "initial_first cid snap s \<Longrightarrow> ?thesis"
    using writeTag_route [of e t v s] by (simp add: initial_first_def)
next
  case (ReadTag e t)
  then show "initial_first cid snap s \<Longrightarrow> ?thesis"
    using readTag_route [of e t s] by (simp add: initial_first_def)
next
  case (ReadAllTags e)
  then show "initial_first cid snap s \<Longrightarrow> ?thesis"
    using readAllTags_route [of e s] by (simp add: initial_first_def)
next
  case (Changed t v)
  assume "initial_first cid snap s"
  then have "initial_first cid snap
      ((record_event (Notification t) s)\<lparr>tagValues := (tagValues s)(t \<mapsto> v)\<rparr>)"
    by (simp add: initial_first_def record_event_def)
  then show ?thesis
    using Changed \<open>initial_first cid snap s\<close>
    by (simp add: changed_def notifyCallbacks_initial_first)
next
  case (NiveauTick r)
  assume a: "initial_first cid snap s"
  then have "initial_first cid snap (s\<lparr>tagValues := (tagValues s)(''niveau'' \<mapsto> JNum (int r))\<rparr>)"
    by (simp add: initial_first_def)
  then show ?thesis
    using NiveauTick a by (simp add: mockNiveauTick_def notifyCallbacks_initial_first)
next
  case (ToggleTick i)
  assume a: "initial_first cid snap s"
  have "initial_first cid snap (s\<lparr>tagValues := m\<rparr>)" for m
    using a by (simp add: initial_first_def)
  then show ?thesis
    using ToggleTick a by (simp add: mockToggleTick_def notifyCallbacks_initial_first)
next
  case (GetConnect e url)
  then show "initial_first cid snap s \<Longrightarrow> ?thesis"
    using GET_connect_route [of e url s] by (simp add: initial_first_def)
next
  case GetStart
  then show "initial_first cid snap s \<Longrightarrow> ?thesis"
    by (auto simp: initial_first_def GET_start_def enqueue_def onTagUpdate_def Let_def)
next
  case (Abort c)
  then show "initial_first cid snap s \<Longrightarrow> ?thesis"
    by (simp add: initial_first_def abort_def unsubscribe_def)
next
  case (Cancel c)
  then show "initial_first cid snap s \<Longrightarrow> ?thesis"
    by (simp add: initial_first_def cancel_def)
qed

lemma run_initial_first:
  "initial_first cid snap s \<Longrightarrow> initial_first cid snap (run acts s)"
  unfolding run_def
  by (induction acts arbitrary: s) (simp_all add: step_initial_first)

lemma GET_start_initial_first:
  "initial_first (fst (GET_start s)) (tagValues s) (snd (GET_start s))"
  by (simp add: initial_first_def GET_start_def enqueue_def onTagUpdate_def Let_def
      getAllTagValues_def)

text \<open>
  C8. A new listener is attached by \<^verbatim>\<open>start\<close>. Whatever happens afterwards
  (connects, disconnects, reads, writes, change notifications, mock timer ticks, other
  listeners attaching, aborts and cancels), the chunks enqueued on the listener's stream
  are the keep-alive comment, then the snapshot \<^verbatim>\<open>getAllTagValues()\<close> taken at
  attach time, and after these nothing but per-tag messages: exactly one initial event,
  and it comes before every tag event.
\<close>

theorem attach_initial_snapshot_first:
  "take 2 (streams (run acts (snd (GET_start s))) (fst (GET_start s)))
     = [Ping, InitialMsg (getAllTagValues s)]
   \<and> filter (\<lambda>m. \<not> isTagMsg m) (streams (run acts (snd (GET_start s))) (fst (GET_start s)))
     = [Ping, InitialMsg (getAllTagValues s)]"
  using run_initial_first [OF GET_start_initial_first, of s acts]
  by (simp add: initial_first_def getAllTagValues_def)

theorem attach_initial_snapshot_first_witness:
  "take 2 (streams (run [Changed ''niveau'' (JNum 7), GetStart, Changed ''ARU'' (JBool True)]
                      (snd (GET_start connected_state))) (fst (GET_start connected_state)))
     = [Ping, InitialMsg (getAllTagValues connected_state)]
   \<and> filter (\<lambda>m. \<not> isTagMsg m)
        (streams (run [Changed ''niveau'' (JNum 7), GetStart, Changed ''ARU'' (JBool True)]
                    (snd (GET_start connected_state))) (fst (GET_start connected_state)))
     = [Ping, InitialMsg (getAllTagValues connected_state)]
   \<and> length (streams (run [Changed ''niveau'' (JNum 7), GetStart, Changed ''ARU'' (JBool True)]
                        (snd (GET_start connected_state))) (fst (GET_start connected_state)))
     = 4"
proof -
  have "length (streams (run [Changed ''niveau'' (JNum 7), GetStart, Changed ''ARU'' (JBool True)]
                        (snd (GET_start connected_state))) (fst (GET_start connected_state)))
     = 4"
    by code_simp
  with attach_initial_snapshot_first
    [of "[Changed ''niveau'' (JNum 7), GetStart, Changed ''ARU'' (JBool True)]" connected_state]
  show ?thesis by simp
qed

section \<open>The invariant of the tag value store\<close>

lemma store_inv_core: "core s' = core s \<Longrightarrow> store_inv s' = store_inv s"
  by (simp add: store_inv_def core_def)

lemma justified_mono: "set tr \<subseteq> set tr' \<Longrightarrow> justified T tr \<Longrightarrow> justified T tr'"
  by (auto simp: justified_def)

lemma store_inv_console_error [simp]: "store_inv (console_error m s) = store_inv s"
  by (simp add: store_inv_def console_error_def)

lemma store_inv_record_event: "store_inv s \<Longrightarrow> store_inv (record_event ev s)"
  by (auto simp: store_inv_def record_event_def justified_def)

lemma store_inv_fields:
  "store_inv s \<Longrightarrow> store_inv (s\<lparr>subscription := a\<rparr>)"
  "store_inv s \<Longrightarrow> store_inv (s\<lparr>session := b\<rparr>)"
  "store_inv s \<Longrightarrow> store_inv (s\<lparr>connected := c\<rparr>)"
  "store_inv s \<Longrightarrow> store_inv (s\<lparr>currentUrl := d\<rparr>)"
  by (simp_all add: store_inv_def)

lemma terminate_step_inv:
  "terminate_step e s = Inl s1 \<Longrightarrow> store_inv s \<Longrightarrow> store_inv s1"
  "terminate_step e s = Inr s1 \<Longrightarrow> store_inv s \<Longrightarrow> store_inv s1"
  by (auto simp: terminate_step_def store_inv_record_event store_inv_fields
      split: option.splits promise.splits)

lemma close_step_inv:
  "close_step e s = Inl s1 \<Longrightarrow> store_inv s \<Longrightarrow> store_inv s1"
  "close_step e s = Inr s1 \<Longrightarrow> store_inv s \<Longrightarrow> store_inv s1"
  by (auto simp: close_step_def store_inv_record_event store_inv_fields
      split: option.splits promise.splits)

lemma client_disconnect_step_inv:
  "client_disconnect_step e s = Inl s1 \<Longrightarrow> store_inv s \<Longrightarrow> store_inv s1"
  "client_disconnect_step e s = Inr s1 \<Longrightarrow> store_inv s \<Longrightarrow> store_inv s1"
  by (auto simp: client_disconnect_step_def store_inv_record_event store_inv_fields
      split: promise.splits)

lemma disconnect_try_inv:
  assumes "store_inv s" and "disconnect_try e s = Inl s1 \<or> disconnect_try e s = Inr s1"
  shows "store_inv s1"
proof (cases "terminate_step e s")
  case (Inl a)
  with assms terminate_step_inv(1) [OF Inl] show ?thesis
    by (simp add: disconnect_try_def)
next
  case t: (Inr a)
  have a: "store_inv a"
    using terminate_step_inv(2) [OF t assms(1)] .
  show ?thesis
  proof (cases "close_step e a")
    case (Inl b)
    with assms(2) t close_step_inv(1) [OF Inl a] show ?thesis
      by (simp add: disconnect_try_def)
  next
    case c: (Inr b)
    have b: "store_inv b"
      using close_step_inv(2) [OF c a] .
    from assms(2) t c have "client_disconnect_step e b = Inl s1 \<or> client_disconnect_step e b = Inr s1"
      by (simp add: disconnect_try_def)
    with b show ?thesis
      using client_disconnect_step_inv by blast
  qed
qed

lemma disconnect_inv: "store_inv s \<Longrightarrow> store_inv (disconnect e s)"
  using disconnect_try_inv [of s e]
  by (cases "disconnect_try e s") (simp_all add: disconnect_def)

lemma monitorTag_inv: "store_inv s \<Longrightarrow> store_inv (monitorTag e t s)"
proof -
  assume inv: "store_inv s"
  have upd: "store_inv ((record_event ev s)\<lparr>monitoredItems := (monitoredItems s)(t \<mapsto> item)\<rparr>)"
    if "map_of tags t = Some tag" for ev item tag
    using inv registered_readable [OF that]
    by (auto simp: store_inv_def record_event_def justified_def)
  show ?thesis
    using inv upd
    by (auto simp: monitorTag_def store_inv_record_event split: option.splits promise.splits)
qed

lemma monitorAll_inv: "store_inv s \<Longrightarrow> store_inv (fold (monitorReadable e) ts s)"
  by (induction ts arbitrary: s) (simp_all add: monitorReadable_def monitorTag_inv)

lemma createSubscription_inv: "store_inv s \<Longrightarrow> store_inv (createSubscription e s)"
  by (auto simp: createSubscription_def monitorAll_inv store_inv_record_event store_inv_fields
      split: promise.splits)

lemma connect_try_inv:
  "connect_try e url s = Inl s1 \<Longrightarrow> store_inv s \<Longrightarrow> store_inv s1"
  "connect_try e url s = Inr s1 \<Longrightarrow> store_inv s \<Longrightarrow> store_inv s1"
  by (auto simp: connect_try_def createSubscription_inv store_inv_record_event store_inv_fields
      split: connect_race.splits promise.splits)

lemma mockTagValues_inv: "store_inv s \<Longrightarrow> store_inv (mockTagValues s)"
  by (auto simp: store_inv_def mockTagValues_def record_event_def justified_def readable_def
      tags_def split: if_splits)

lemma connect_catch_inv: "store_inv s \<Longrightarrow> store_inv (snd (connect_catch e url s))"
  by (simp add: connect_catch_def mockTagValues_inv store_inv_fields)

lemma connect_inv: "store_inv s \<Longrightarrow> store_inv (snd (connect e url s))"
proof -
  assume inv: "store_inv s"
  let ?s0 = "if connected s \<and> currentUrl s \<noteq> url then disconnect e s else s"
  have s0: "store_inv ?s0"
    using inv by (simp add: disconnect_inv)
  show ?thesis
  proof (cases "connect_try e url ?s0")
    case (Inl s1)
    with connect_try_inv(1) [OF Inl s0] inv show ?thesis
      by (simp add: connect_def connect_catch_inv)
  next
    case (Inr s1)
    with connect_try_inv(2) [OF Inr s0] inv show ?thesis
      by (simp add: connect_def)
  qed
qed

lemma writeTag_inv: "store_inv s \<Longrightarrow> store_inv (snd (writeTag e t v s))"
proof -
  assume inv: "store_inv s"
  have upd: "store_inv ((record_event (GoodWrite t) (record_event ev s))\<lparr>tagValues := (tagValues s)(t \<mapsto> v)\<rparr>)"
    if "map_of tags t = Some tag" for ev tag
    using inv registered_readable [OF that]
    by (auto simp: store_inv_def record_event_def justified_def)
  show ?thesis
    using inv upd
    by (auto simp: writeTag_def store_inv_record_event split: option.splits promise.splits)
qed

lemma readTag_inv: "store_inv s \<Longrightarrow> store_inv (snd (readTag e t s))"
proof -
  assume inv: "store_inv s"
  have upd: "store_inv ((record_event (GoodRead t) (record_event ev s))\<lparr>tagValues := (tagValues s)(t \<mapsto> v)\<rparr>)"
    if "map_of tags t = Some tag" for ev tag v
    using inv registered_readable [OF that]
    by (auto simp: store_inv_def record_event_def justified_def)
  show ?thesis
    using inv upd
    by (auto simp: readTag_def store_inv_record_event split: option.splits promise.splits)
qed

lemma readTag_trace: "set (trace s) \<subseteq> set (trace (snd (readTag e t s)))"
  by (auto simp: readTag_def console_error_def record_event_def split: option.splits promise.splits)

lemma readTag_result:
  "fst (readTag e t s) = Inr v \<Longrightarrow> v \<noteq> JNull
     \<Longrightarrow> readable t \<and> GoodRead t \<in> set (trace (snd (readTag e t s)))"
  by (auto simp: readTag_def console_error_def record_event_def registered_readable
      split: option.splits promise.splits if_splits)

lemma readPromises_trace: "set (trace s) \<subseteq> set (trace (snd (readPromises e ts s)))"
proof (induction ts arbitrary: s)
  case Nil
  then show ?case by simp
next
  case (Cons t ts)
  from Cons.IH [of "snd (readTag e t s)"] readTag_trace [of s e t] show ?case
    by (auto split: prod.splits)
qed

lemma readPromises_inv: "store_inv s \<Longrightarrow> store_inv (snd (readPromises e ts s))"
proof (induction ts arbitrary: s)
  case Nil
  then show ?case by simp
next
  case (Cons t ts)
  from Cons.IH [of "snd (readTag e t s)"] readTag_inv [OF Cons.prems, of e t] show ?case
    by (auto split: prod.splits)
qed

lemma readPromises_results:
  "(t, Inr v) \<in> set (fst (readPromises e ts s)) \<Longrightarrow> v \<noteq> JNull
     \<Longrightarrow> readable t \<and> GoodRead t \<in> set (trace (snd (readPromises e ts s)))"
proof (induction ts arbitrary: s)
  case Nil
  then show ?case by simp
next
  case (Cons a ts)
  obtain r s1 where rt: "readTag e a s = (r, s1)" by (cases "readTag e a s")
  obtain rs s2 where rp: "readPromises e ts s1 = (rs, s2)" by (cases "readPromises e ts s1")
  from Cons.prems rt rp have "(t, Inr v) = (a, r) \<or> (t, Inr v) \<in> set rs" by simp
  then show ?case
  proof
    assume "(t, Inr v) = (a, r)"
    with readTag_result [of e a s v] rt Cons.prems(2) readPromises_trace [of s1 e ts] rp
    show ?thesis by auto
  next
    assume "(t, Inr v) \<in> set rs"
    with Cons.IH [of s1] rp rt Cons.prems(2) show ?thesis by simp
  qed
qed

lemma Promise_all_results:
  "Promise_all rs = Inr vs \<Longrightarrow> (t, v) \<in> set vs \<Longrightarrow> (t, Inr v) \<in> set rs"
  by (induction rs arbitrary: vs rule: Promise_all.induct) (auto split: sum.splits)

lemma fold_storeResult_inv:
  "store_inv s \<Longrightarrow> (\<forall>t v. (t, v) \<in> set vs \<longrightarrow> v \<noteq> JNull \<longrightarrow> readable t \<and> GoodRead t \<in> set (trace s))
     \<Longrightarrow> store_inv (fold storeResult vs s)"
proof (induction vs arbitrary: s)
  case Nil
  then show ?case by simp
next
  case (Cons r vs)
  have "store_inv (storeResult r s)"
    using Cons.prems by (cases r) (auto simp: store_inv_def storeResult_def justified_def)
  moreover have "trace (storeResult r s) = trace s"
    by (simp add: storeResult_def)
  ultimately show ?case
    using Cons.IH [of "storeResult r s"] Cons.prems(2) by simp
qed

lemma readAllTags_inv: "store_inv s \<Longrightarrow> store_inv (snd (readAllTags e s))"
proof -
  assume inv: "store_inv s"
  obtain results s1 where rp: "readPromises e readableKeys s = (results, s1)"
    by (cases "readPromises e readableKeys s")
  have s1: "store_inv s1"
    using readPromises_inv [OF inv, of e readableKeys] rp by simp
  have "store_inv (fold storeResult vs s1)" if "Promise_all results = Inr vs" for vs
  proof (rule fold_storeResult_inv [OF s1], intro allI impI)
    fix t v
    assume "(t, v) \<in> set vs" and "v \<noteq> JNull"
    with Promise_all_results [OF that] readPromises_results [of t v e readableKeys s] rp
    show "readable t \<and> GoodRead t \<in> set (trace s1)" by simp
  qed
  with s1 inv rp show ?thesis
    by (auto simp: readAllTags_def split: sum.splits)
qed

lemma GET_connect_inv: "store_inv s \<Longrightarrow> store_inv (GET_connect e url s)"
  using connect_inv [of s e url] readAllTags_inv [of "snd (connect e url s)" e]
  by (auto simp: GET_connect_def split: prod.splits sum.splits bool.splits)

lemma deliver_core: "core (deliver t v c s) = core s"
  by (simp add: core_def deliver_def console_error_def)

lemma fold_deliver_core: "core (fold (deliver t v) cbs s) = core s"
  by (induction cbs arbitrary: s) (simp_all add: deliver_core)

lemma notifyCallbacks_inv: "store_inv (notifyCallbacks t v s) = store_inv s"
  by (simp add: notifyCallbacks_def store_inv_core [OF fold_deliver_core])

lemma changed_inv: "store_inv s \<Longrightarrow> t \<in> dom (monitoredItems s) \<Longrightarrow> store_inv (changed t v s)"
proof -
  assume "store_inv s" and "t \<in> dom (monitoredItems s)"
  then have "store_inv ((record_event (Notification t) s)\<lparr>tagValues := (tagValues s)(t \<mapsto> v)\<rparr>)"
    by (auto simp: store_inv_def record_event_def justified_def)
  then show ?thesis
    by (simp add: changed_def notifyCallbacks_inv)
qed

lemma readable_niveau: "readable ''niveau''"
  by (simp add: readable_def tags_def)

lemma readable_mockCandidates: "i < length mockCandidates \<Longrightarrow> readable (mockCandidates ! i)"
  by (cases i; cases "i - 1"; cases "i - 2"; cases "i - 3")
     (auto simp: mockCandidates_def readable_def tags_def)

lemma mock_update_inv:
  "store_inv s \<Longrightarrow> 0 < intervals s \<Longrightarrow> readable t
     \<Longrightarrow> store_inv (s\<lparr>tagValues := (tagValues s)(t \<mapsto> v)\<rparr>)"
  by (auto simp: store_inv_def justified_def)

lemma mockNiveauTick_inv: "store_inv s \<Longrightarrow> 0 < intervals s \<Longrightarrow> store_inv (mockNiveauTick r s)"
  by (simp add: mockNiveauTick_def notifyCallbacks_inv mock_update_inv readable_niveau)

lemma mockToggleTick_inv:
  "store_inv s \<Longrightarrow> 0 < intervals s \<Longrightarrow> i < length mockCandidates
     \<Longrightarrow> store_inv (mockToggleTick i s)"
  by (simp add: mockToggleTick_def notifyCallbacks_inv mock_update_inv readable_mockCandidates)

lemma GET_start_core: "core (snd (GET_start s)) = core s"
  by (simp add: core_def GET_start_def enqueue_def onTagUpdate_def Let_def)

lemma abort_core: "core (abort c s) = core s"
  by (simp add: core_def abort_def unsubscribe_def)

lemma cancel_core: "core (cancel c s) = core s"
  by (simp add: core_def cancel_def)

lemma step_inv: "store_inv s \<Longrightarrow> store_inv (step a s)"
  by (cases a)
     (simp_all add: connect_inv disconnect_inv writeTag_inv readTag_inv readAllTags_inv
        changed_inv mockNiveauTick_inv mockToggleTick_inv GET_connect_inv
        store_inv_core [OF GET_start_core] store_inv_core [OF abort_core]
        store_inv_core [OF cancel_core])

lemma run_inv: "store_inv s \<Longrightarrow> store_inv (run acts s)"
  unfolding run_def by (induction acts arbitrary: s) (simp_all add: step_inv)

lemma fold_null:
  "fold (\<lambda>tagName m. m(tagName \<mapsto> JNull)) ks m0 T = Some v \<Longrightarrow> v = JNull \<or> m0 T = Some v"
proof (induction ks arbitrary: m0)
  case Nil
  then show ?case by simp
next
  case (Cons a ks)
  from Cons.IH [of "m0(a \<mapsto> JNull)"] Cons.prems show ?case
    by (auto split: if_splits)
qed

lemma constructor_inv: "store_inv constructor"
  using fold_null [of "map fst tags" Map.empty]
  by (auto simp: store_inv_def constructor_def)

text \<open>
  C9, as amended. In every state the process can reach from its start, a stored value that
  is not \<^verbatim>\<open>null\<close> belongs to a registered tag whose access includes \<open>Read\<close>, and
  before it was stored the wrapper saw a good read of that tag, a change notification for
  it or an acknowledged write to it, or it ran the mock initialisation.
\<close>

theorem store_nonnull_justified:
  assumes "tagValues (run acts constructor) T = Some v" and "v \<noteq> JNull"
  shows "(\<exists>tag. map_of tags T = Some tag \<and> Read \<in> set (access tag))
    \<and> (GoodRead T \<in> set (trace (run acts constructor))
        \<or> Notification T \<in> set (trace (run acts constructor))
        \<or> GoodWrite T \<in> set (trace (run acts constructor))
        \<or> MockData \<in> set (trace (run acts constructor)))"
proof -
  have "store_inv (run acts constructor)"
    using run_inv [OF constructor_inv] .
  with assms have r: "readable T" and j: "justified T (trace (run acts constructor))"
    by (auto simp: store_inv_def)
  from r obtain tag where "map_of tags T = Some tag" and "Read \<in> set (access tag)"
    by (auto simp: readable_def split: option.splits)
  with j show ?thesis
    by (auto simp: justified_def)
qed

theorem store_nonnull_justified_witness:
  "tagValues (run write_then_no_read constructor) ''ARU'' = Some (JBool True)
   \<and> (\<exists>tag. map_of tags ''ARU'' = Some tag \<and> Read \<in> set (access tag))
   \<and> (GoodRead ''ARU'' \<in> set (trace (run write_then_no_read constructor))
        \<or> Notification ''ARU'' \<in> set (trace (run write_then_no_read constructor))
        \<or> GoodWrite ''ARU'' \<in> set (trace (run write_then_no_read constructor))
        \<or> MockData \<in> set (trace (run write_then_no_read constructor)))"
proof -
  have v: "tagValues (run write_then_no_read constructor) ''ARU'' = Some (JBool True)"
    by code_simp
  from store_nonnull_justified [OF v] v show ?thesis by simp
qed

text \<open>
  The claim as stated fails twice: after an acknowledged write the written value is
  stored although the tag was never read and no notification came, and after the mock
  fallback the store holds the mock's values with no read and no notification at all.
\<close>

theorem store_invariant_counterexample:
  "tagValues (run write_then_no_read constructor) ''ARU'' = Some (JBool True)
   \<and> GoodRead ''ARU'' \<notin> set (trace (run write_then_no_read constructor))
   \<and> Notification ''ARU'' \<notin> set (trace (run write_then_no_read constructor))
   \<and> tagValues (run mock_fallback_run constructor) ''niveau'' = Some (JNum 65)
   \<and> GoodRead ''niveau'' \<notin> set (trace (run mock_fallback_run constructor))
   \<and> Notification ''niveau'' \<notin> set (trace (run mock_fallback_run constructor))"
  by code_simp

section \<open>The reconnection logic of the page\<close>

lemma page_inv_step:
  assumes "\<forall>i < length (sources p). \<not> closed (sources p ! i) \<longrightarrow> retryCount (sources p ! i) = 0"
    and "error p \<noteq> Some FailedAfterMultipleAttempts"
  shows "(\<forall>i < length (sources (page_step ev p)). \<not> closed (sources (page_step ev p) ! i) \<longrightarrow> retryCount (sources (page_step ev p) ! i) = 0)
    \<and> error (page_step ev p) \<noteq> Some FailedAfterMultipleAttempts"
  using assms
  by (cases ev) (auto simp: onopen_def onerror_def connectEventSource_def maxRetries_def nth_list_update nth_append split: list.splits)

lemma page_inv_run:
  assumes "\<forall>i < length (sources p). \<not> closed (sources p ! i) \<longrightarrow> retryCount (sources p ! i) = 0"
    and "error p \<noteq> Some FailedAfterMultipleAttempts"
  shows "error (page_run evs p) \<noteq> Some FailedAfterMultipleAttempts"
  using assms unfolding page_run_def
proof (induction evs arbitrary: p)
  case Nil
  then show ?case by simp
next
  case (Cons ev evs)
  from page_inv_step [OF Cons.prems, of ev] show ?case
    using Cons.IH [of "page_step ev p"] by simp
qed

text \<open>
  Every \<^verbatim>\<open>EventSource\<close> is closed by its first error, and the retry that follows
  counts from zero in a new closure: no sequence of events brings the page to the
  "Failed to connect after multiple attempts" state.
\<close>

theorem page_never_gives_up:
  "error (page_run evs handleConnect_success) \<noteq> Some FailedAfterMultipleAttempts"
  by (rule page_inv_run) (simp_all add: handleConnect_success_def connectEventSource_def)

text \<open>
  C1, evaluated on six connection failures in a row. After the sixth failure the page
  still shows "Connection lost. Retrying (1/5)...", is still connecting, and a seventh
  connection attempt is scheduled after 3000 ms; when that timeout fires, the seventh
  \<^verbatim>\<open>EventSource\<close> is opened. The counter of failures never passes 1, so the bound
  of 5 retries is never reached.
\<close>

theorem six_failures_still_retrying:
  "error (page_run (consecutive_failures 6 0) handleConnect_success)
     = Some (ConnectionLostRetrying 1 5)
   \<and> timeouts (page_run (consecutive_failures 6 0) handleConnect_success) = [3000]
   \<and> isConnecting (page_run (consecutive_failures 6 0) handleConnect_success)
   \<and> map retryCount (sources (page_run (consecutive_failures 6 0) handleConnect_success))
       = [1, 1, 1, 1, 1, 1]
   \<and> length (sources (page_run (consecutive_failures 6 0 @ [TimeoutFires])
                          handleConnect_success)) = 7"
  by code_simp

end
